theory Spec2Isabelle
  imports Main "HOL-Library.AList"
begin

section \<open>Python values, dictionaries and exceptions\<close>

text \<open>
  The repository is Python. An exception is a value of type \<open>error\<close>, and a function
  that may raise returns \<open>error + 'a\<close> with \<open>Inl\<close> for the exception. \<open>Raised_by f\<close>
  stands for whatever exception a callee outside the modelled files (\<open>f\<close>) lets escape;
  it is a constructor of its own, so it is never confused with an exception the
  modelled code raises itself.
\<close>

datatype error =
    ValueError string
  | KeyError string
  | TypeError
  | AttributeError string
  | ZeroDivisionError
  | AssertionError
  | RuntimeError
  | OSError
  | Raised_by string

text \<open>
  The Python values that the modelled code inspects. A dictionary with string keys is
  an association list with distinct keys in insertion order.
\<close>

datatype pyval =
    PNone
  | PBool bool
  | PInt int
  | PStr string
  | PClass string
  | PDict "(string \<times> pyval) list"

type_synonym pydict = "(string \<times> pyval) list"



text \<open>
  \<open>d[k] = v\<close>, and \<open>setattr(obj, k, v)\<close> on an instance dictionary: an existing key
  keeps its position and takes the new value, a new key is appended.
\<close>

definition setitem :: "string \<Rightarrow> 'v \<Rightarrow> (string \<times> 'v) list \<Rightarrow> (string \<times> 'v) list" where
  "setitem k v d = AList.update k v d"

text \<open>\<open>d.update(e)\<close> and \<open>{**d, **e}\<close>: the items of \<open>e\<close> are stored one by one, in order.\<close>

fun dict_update :: "(string \<times> 'v) list \<Rightarrow> (string \<times> 'v) list \<Rightarrow> (string \<times> 'v) list" where
  "dict_update d [] = d"
| "dict_update d ((k, v) # e) = dict_update (setitem k v d) e"


section \<open>AdversaryConfig (blades/adversaries/adversary.py)\<close>

text \<open>
  An AdversaryConfig is a plain Python object: the class defines
  \<open>__init__\<close>, \<open>to_dict\<close>, \<open>build\<close> and \<open>update_from_dict\<close>, no \<open>__slots__\<close>, no
  \<open>__setattr__\<close> and no property, so an attribute write stores into the instance
  dictionary (\<open>vars(self)\<close>). Objects live in a heap that gives each object identity its
  instance dictionary; a method takes the heap and the identity of \<open>self\<close>.
  Attribute names are the names kept in the instance dictionary; the descriptors every
  Python object inherits (\<open>__class__\<close>, \<open>__dict__\<close>) are not configuration keys and
  are outside the model.
\<close>

type_synonym ref = nat
type_synonym heap = "ref \<Rightarrow> pydict"






text \<open>\<open>to_dict\<close>: a deep copy of \<open>vars(self)\<close>; a copy of a value is the value.\<close>

definition to_dict :: "heap \<Rightarrow> ref \<Rightarrow> pydict" where
  "to_dict h self = h self"


section \<open>AlgorithmConfig\<close>

text \<open>
  Modelled from the spec: the AlgorithmConfig class (fllib/algorithms/algorithm_config.py)
  is not among the source files. The spec describes it as a mutable property bag that
  supports \<open>update_from_dict\<close> (blind attribute assignment, no validation at merge time),
  \<open>to_dict\<close> (a copy of all attributes), \<open>validate()\<close> (base class: no checks) and
  \<open>freeze()\<close> (thereafter raises on mutation). The attributes that Algorithm reads
  are fields of their own, with the types the code uses them at; any other attribute
  is kept in \<open>other_attributes\<close>. \<open>get_client_config()\<close> is taken to return the client
  sub-config.
\<close>

record algorithm_config =
  algo_class :: "string option"
  evaluation_interval :: "int option"
  dataset_config :: pydict
  client_config :: pydict
  other_attributes :: pydict
  is_frozen :: bool









section \<open>Algorithm (fllib/algorithms/algorithm.py)\<close>

text \<open>
  Modelled from the spec: the Dataset class is not among the source files; the code
  reads its \<open>client_ids\<close>, an ordered sequence of ids.
  Modelled from the spec: the ClientManager class is not among the source files. The
  spec describes it as a mapping from client id to Client object, in which clients are
  looked up by id. Client objects are denoted by their identities.
\<close>

type_synonym client_id = string

record dataset =
  client_ids :: "client_id list"

type_synonym client_manager = "(client_id \<times> ref) list"

text \<open>
  The attributes of an Algorithm object that the code reads or writes. \<open>dataset\<close> and
  \<open>client_manager\<close> are unset (None here) until \<open>setup\<close> assigns them; \<open>iteration\<close> is the
  counter of the Trainable base class, which starts at 0 and is incremented after each
  \<open>step\<close>. A subclass is an extension of the record.
\<close>

record algorithm =
  config :: algorithm_config
  iteration :: nat
  dataset :: "dataset option"
  client_manager :: "client_manager option"







text \<open>
  \<open>Algorithm.step\<close>. \<open>training_step\<close> and \<open>evaluate\<close> are methods that a subclass
  overrides, so \<open>step\<close> takes them as parameters; a method takes the object and returns
  its result and the object afterwards, or raises. \<open>evaluate\<close> returns None or a
  dictionary of metrics, whose values the code never inspects.
  \<^verbatim>\<open>
      evaluate_this_iter = (
          self.config.evaluation_interval is not None
          and (self.iteration + 1) % self.config.evaluation_interval == 0
      )
      results: ResultDict = {}
      results = self.training_step()
      if evaluate_this_iter:
          results.update(self.evaluate())
      return results
  \<close>
  \<open>%\<close> raises ZeroDivisionError on a zero divisor; \<open>results.update(None)\<close> raises TypeError.
\<close>

datatype 'm returned = Returned_None | Returned_dict "(string \<times> 'm) list"

definition evaluate_this_iter :: "'x algorithm_scheme \<Rightarrow> error + bool" where
  "evaluate_this_iter self =
     (case evaluation_interval (config self) of
        None \<Rightarrow> Inr False
      | Some e \<Rightarrow>
          if e = 0 then Inl ZeroDivisionError
          else Inr ((int (iteration self) + 1) mod e = 0))"

definition step ::
  "('x algorithm_scheme \<Rightarrow> error + (string \<times> 'm) list \<times> 'x algorithm_scheme)
     \<Rightarrow> ('x algorithm_scheme \<Rightarrow> error + 'm returned \<times> 'x algorithm_scheme)
     \<Rightarrow> 'x algorithm_scheme \<Rightarrow> error + (string \<times> 'm) list \<times> 'x algorithm_scheme"
where
  "step training_step_method evaluate_method self =
     (case evaluate_this_iter self of
        Inl e \<Rightarrow> Inl e
      | Inr due \<Rightarrow>
          (case training_step_method self of
             Inl e \<Rightarrow> Inl e
           | Inr (results, self1) \<Rightarrow>
               if due then
                 (case evaluate_method self1 of
                    Inl e \<Rightarrow> Inl e
                  | Inr (Returned_None, self2) \<Rightarrow> Inl TypeError
                  | Inr (Returned_dict metrics, self2) \<Rightarrow> Inr (dict_update results metrics, self2))
               else Inr (results, self1)))"

text \<open>The methods of the base class: \<open>training_step\<close> returns \<open>{}\<close>, \<open>evaluate\<close> is \<open>pass\<close>.\<close>

definition training_step ::
  "'x algorithm_scheme \<Rightarrow> error + (string \<times> 'm) list \<times> 'x algorithm_scheme" where
  "training_step self = Inr ([], self)"

definition evaluate :: "'x algorithm_scheme \<Rightarrow> error + 'm returned \<times> 'x algorithm_scheme" where
  "evaluate self = Inr (Returned_None, self)"

text \<open>
  Evaluation is due, in the words of the claims: the interval is set and divides
  \<open>iteration + 1\<close>.
\<close>

definition evaluation_due :: "'x algorithm_scheme \<Rightarrow> bool" where
  "evaluation_due self =
     (case evaluation_interval (config self) of
        None \<Rightarrow> False
      | Some e \<Rightarrow> (int (iteration self) + 1) mod e = 0)"









text \<open>
  \<open>Algorithm.__getstate__\<close> and \<open>Algorithm.save_checkpoint\<close>. A file system holds files by
  path; \<open>unwritable\<close> are the paths that cannot be opened for writing (no such
  directory, no permission), for which \<open>open\<close> raises OSError. \<open>pickle.dump\<close> writes a
  serialization of the state, from which the state can be read back.
  \<^verbatim>\<open>
      state = self.__getstate__()
      state_file = os.path.join(checkpoint_dir, "algorithm_state.pkl")
      with open(state_file, "wb") as f:
          pickle.dump(state, f)
      return checkpoint_dir
  \<close>
\<close>

datatype file_content = Pickled "(string \<times> algorithm_config) list"

record file_system =
  files :: "(string \<times> file_content) list"
  unwritable :: "string list"

text \<open>\<open>os.path.join(a, b)\<close> on POSIX, for two components.\<close>

definition os_path_join :: "string \<Rightarrow> string \<Rightarrow> string" where
  "os_path_join a b =
     (if b \<noteq> [] \<and> hd b = CHR ''/'' then b
      else if a = [] \<or> last a = CHR ''/'' then a @ b
      else a @ ''/'' @ b)"

definition open_wb_dump :: "file_system \<Rightarrow> string \<Rightarrow> file_content \<Rightarrow> error + file_system" where
  "open_wb_dump fs path content =
     (if path \<in> set (unwritable fs) then Inl OSError
      else Inr (fs\<lparr>files := setitem path content (files fs)\<rparr>))"

definition getstate :: "'x algorithm_scheme \<Rightarrow> (string \<times> algorithm_config) list" where
  "getstate self = [(''config'', config self)]"

definition save_checkpoint ::
  "file_system \<Rightarrow> 'x algorithm_scheme \<Rightarrow> string \<Rightarrow> error + file_system \<times> string" where
  "save_checkpoint fs self checkpoint_dir =
     (let state = getstate self;
          state_file = os_path_join checkpoint_dir ''algorithm_state.pkl''
      in case open_wb_dump fs state_file (Pickled state) of
           Inl e \<Rightarrow> Inl e
         | Inr fs' \<Rightarrow> Inr (fs', checkpoint_dir))"

section \<open>Clients, per-round results and the Adversary (blades/adversaries/adversary.py)\<close>

text \<open>
  Modelled from the spec: the Client class is not among the source files. The spec says
  that each client carries a boolean \<open>is_malicious\<close> flag, and that turning a client
  malicious sets the flag and disables the client's independent local-training path;
  \<open>to_malicious(local_training=...)\<close> is modelled as doing exactly that.
  Client objects live in a store indexed by object identity, since the adversary and
  the client manager hold references to the same objects.
\<close>

record client =
  is_malicious :: bool
  local_training :: bool

type_synonym client_store = "ref \<Rightarrow> client"

definition to_malicious :: "bool \<Rightarrow> client \<Rightarrow> client" where
  "to_malicious train c = c\<lparr>is_malicious := True, local_training := train\<rparr>"

text \<open>
  Modelled from the spec: \<open>ClientManager.get_client_by_id\<close> looks a client up by id. A
  lookup of an unknown id is taken to raise.
\<close>

definition get_client_by_id :: "client_manager \<Rightarrow> client_id \<Rightarrow> error + ref" where
  "get_client_by_id cm i =
     (case map_of cm i of None \<Rightarrow> Inl (Raised_by ''get_client_by_id'') | Some r \<Rightarrow> Inr r)"

text \<open>
  A per-client result is a dictionary. The code reads two of its keys: \<open>"id"\<close> by
  subscript (KeyError when absent) and \<open>CLIENT_UPDATE\<close> by \<open>get\<close> with default None. Each
  of the two keys is either absent or bound; the pseudo-gradient bound to
  \<open>CLIENT_UPDATE\<close> is None or a one-dimensional tensor (a flattened update), whose entries
  the code never inspects.
\<close>

datatype 'v entry = Absent | Bound 'v

record 'a result =
  id_entry :: "client_id entry"
  update_entry :: "'a list option entry"

text \<open>\<open>result.get(key, None)\<close> and \<open>result[key]\<close> on such an entry.\<close>

definition entry_get :: "'v option entry \<Rightarrow> 'v option" where
  "entry_get e = (case e of Absent \<Rightarrow> None | Bound v \<Rightarrow> v)"

definition entry_getitem :: "string \<Rightarrow> 'v entry \<Rightarrow> error + 'v" where
  "entry_getitem k e = (case e of Absent \<Rightarrow> Inl (KeyError k) | Bound v \<Rightarrow> Inr v)"

text \<open>
  \<open>torch.vstack\<close> on one-dimensional tensors: every tensor becomes one row, and the rows
  must have one length.
\<close>

definition vstack :: "'a list list \<Rightarrow> error + 'a list list" where
  "vstack rows =
     (if rows = [] \<or> (\<exists>row \<in> set rows. length row \<noteq> length (hd rows))
      then Inl RuntimeError else Inr rows)"

text \<open>
  The algorithm that the adversary is attached to is an Algorithm that also keeps
  \<open>local_results\<close>, the results collected in the round.
\<close>

record 'a fl_algorithm = algorithm +
  local_results :: "'a result list"

record adversary =
  clients :: "ref list"
  global_config :: pyval

text \<open>\<open>Adversary.__init__(self, clients, global_config=None, malicious_client_cls=None)\<close>.\<close>

definition Adversary_init :: "ref list \<Rightarrow> pyval \<Rightarrow> adversary" where
  "Adversary_init cs gc = \<lparr>clients = cs, global_config = gc\<rparr>"

text \<open>
  The loop of \<open>get_benign_updates\<close>, with the list \<open>updates\<close> as accumulator; \<open>cm\<close> is
  \<open>algorithm.client_manager\<close>, read in each iteration (AttributeError while unset):
  \<^verbatim>\<open>
      for result in algorithm.local_results:
          psudo_grad = result.get(CLIENT_UPDATE, None)
          client = algorithm.client_manager.get_client_by_id(result["id"])
          if psudo_grad is not None and not client.is_malicious:
              updates.append(psudo_grad)
  \<close>
\<close>

fun collect_updates ::
  "client_store \<Rightarrow> client_manager option \<Rightarrow> 'a result list \<Rightarrow> 'a list list
     \<Rightarrow> error + 'a list list"
where
  "collect_updates s cm [] updates = Inr updates"
| "collect_updates s cm (res # rest) updates =
     (let psudo_grad = entry_get (update_entry res) in
      case cm of
        None \<Rightarrow> Inl (AttributeError ''client_manager'')
      | Some manager \<Rightarrow>
          (case entry_getitem ''id'' (id_entry res) of
             Inl e \<Rightarrow> Inl e
           | Inr i \<Rightarrow>
               (case get_client_by_id manager i of
                  Inl e \<Rightarrow> Inl e
                | Inr c \<Rightarrow>
                    (case psudo_grad of
                       Some g \<Rightarrow>
                         if \<not> is_malicious (s c) then collect_updates s cm rest (updates @ [g])
                         else collect_updates s cm rest updates
                     | None \<Rightarrow> collect_updates s cm rest updates))))"

definition no_benign_updates :: string where
  "no_benign_updates =
     ''No benign updates found. To use this adversary,you must have at least one benign client.''"

definition get_benign_updates :: "client_store \<Rightarrow> 'a fl_algorithm \<Rightarrow> error + 'a list list" where
  "get_benign_updates s algorithm =
     (case collect_updates s (client_manager algorithm) (local_results algorithm) [] of
        Inl e \<Rightarrow> Inl e
      | Inr updates \<Rightarrow>
          if updates = [] then Inl (ValueError no_benign_updates) else vstack updates)"

text \<open>
  \<open>on_algorithm_start\<close>:
  \<^verbatim>\<open>
      for client in self.clients:
          client.to_malicious(local_training=False)
  \<close>
  The argument \<open>algorithm\<close> is not used. The result is the store of clients afterwards.
\<close>

fun to_malicious_each :: "ref list \<Rightarrow> client_store \<Rightarrow> client_store" where
  "to_malicious_each [] s = s"
| "to_malicious_each (c # cs) s = to_malicious_each cs (s(c := to_malicious False (s c)))"

definition on_algorithm_start :: "adversary \<Rightarrow> client_store \<Rightarrow> client_store" where
  "on_algorithm_start self s = to_malicious_each (clients self) s"

text \<open>\<open>on_local_round_end\<close>: \<open>pass\<close>.\<close>

definition on_local_round_end :: "adversary \<Rightarrow> client_store \<Rightarrow> client_store" where
  "on_local_round_end self s = s"

text \<open>
  What the claims about \<open>get_benign_updates\<close> speak of, written from their words: the
  client a result belongs to, the results of benign clients, the results of malicious
  clients, and the pseudo-gradients that benign clients recorded.
\<close>

definition owner :: "client_store \<Rightarrow> client_manager option \<Rightarrow> 'a result \<Rightarrow> client option" where
  "owner s cm res =
     (case cm of
        None \<Rightarrow> None
      | Some manager \<Rightarrow>
          (case id_entry res of
             Absent \<Rightarrow> None
           | Bound i \<Rightarrow> (case map_of manager i of None \<Rightarrow> None | Some r \<Rightarrow> Some (s r))))"

definition is_benign :: "client_store \<Rightarrow> client_manager option \<Rightarrow> 'a result \<Rightarrow> bool" where
  "is_benign s cm res = (case owner s cm res of None \<Rightarrow> False | Some c \<Rightarrow> \<not> is_malicious c)"

definition benign_results :: "client_store \<Rightarrow> 'a fl_algorithm \<Rightarrow> 'a result list" where
  "benign_results s algorithm =
     filter (is_benign s (client_manager algorithm)) (local_results algorithm)"

definition malicious_results :: "client_store \<Rightarrow> 'a fl_algorithm \<Rightarrow> 'a result list" where
  "malicious_results s algorithm =
     filter (\<lambda>res. \<not> is_benign s (client_manager algorithm) res) (local_results algorithm)"

definition recorded :: "'a result \<Rightarrow> 'a list option" where
  "recorded res = (case update_entry res of Bound (Some g) \<Rightarrow> Some g | _ \<Rightarrow> None)"

definition benign_updates :: "client_store \<Rightarrow> 'a fl_algorithm \<Rightarrow> 'a list list" where
  "benign_updates s algorithm = List.map_filter recorded (benign_results s algorithm)"

text \<open>The client manager is set, and every result names a client that it knows.\<close>

definition names_client :: "client_manager option \<Rightarrow> 'a result \<Rightarrow> bool" where
  "names_client cm res =
     (case cm of
        None \<Rightarrow> False
      | Some manager \<Rightarrow>
          (case id_entry res of Absent \<Rightarrow> False | Bound i \<Rightarrow> map_of manager i \<noteq> None))"

definition resolvable :: "'a fl_algorithm \<Rightarrow> bool" where
  "resolvable algorithm =
     list_all (names_client (client_manager algorithm)) (local_results algorithm)"

text \<open>Three clients, the third one malicious, and rounds over them.\<close>

definition example_store :: client_store where
  "example_store =
     (\<lambda>r. \<lparr>is_malicious = False, local_training = True\<rparr>)
       (2 := \<lparr>is_malicious = True, local_training = False\<rparr>)"

definition example_manager :: client_manager where
  "example_manager = [(''a'', 0), (''b'', 1), (''c'', 2)]"

definition example_config :: algorithm_config where
  "example_config =
     \<lparr>algo_class = Some ''Fedavg'', evaluation_interval = None,
      dataset_config = [(''custom_dataset'', PStr ''simple''), (''num_classes'', PInt 2)],
      client_config = [], other_attributes = [], is_frozen = True\<rparr>"

definition example_algorithm :: algorithm where
  "example_algorithm =
     \<lparr>config = example_config, iteration = 0,
      dataset = Some \<lparr>client_ids = [''a'', ''b'', ''c'']\<rparr>,
      client_manager = Some example_manager\<rparr>"

definition round_of :: "'a result list \<Rightarrow> 'a fl_algorithm" where
  "round_of results =
     \<lparr>config = example_config, iteration = 0,
      dataset = Some \<lparr>client_ids = [''a'', ''b'', ''c'']\<rparr>,
      client_manager = Some example_manager,
      local_results = results\<rparr>"

definition full_round :: "int fl_algorithm" where
  "full_round =
     round_of
       [\<lparr>id_entry = Bound ''a'', update_entry = Bound (Some [1, 2])\<rparr>,
        \<lparr>id_entry = Bound ''c'', update_entry = Bound (Some [9, 9])\<rparr>,
        \<lparr>id_entry = Bound ''b'', update_entry = Bound (Some [3, 4])\<rparr>]"

definition partial_round :: "int fl_algorithm" where
  "partial_round =
     round_of
       [\<lparr>id_entry = Bound ''a'', update_entry = Bound (Some [1, 2])\<rparr>,
        \<lparr>id_entry = Bound ''b'', update_entry = Absent\<rparr>,
        \<lparr>id_entry = Bound ''c'', update_entry = Bound (Some [9, 9])\<rparr>]"

definition silent_round :: "int fl_algorithm" where
  "silent_round =
     round_of
       [\<lparr>id_entry = Bound ''a'', update_entry = Bound None\<rparr>]"

text \<open>
  An algorithm that evaluates every second iteration, with a training step and an
  evaluation that a subclass could define.
\<close>

definition evaluating_algorithm :: "nat \<Rightarrow> int option \<Rightarrow> algorithm" where
  "evaluating_algorithm i e =
     \<lparr>config = example_config\<lparr>evaluation_interval := e\<rparr>, iteration = i,
      dataset = None, client_manager = None\<rparr>"

definition example_training_step :: "algorithm \<Rightarrow> error + (string \<times> int) list \<times> algorithm" where
  "example_training_step self = Inr ([(''loss'', 7), (''round'', 1)], self)"

definition example_evaluate :: "algorithm \<Rightarrow> error + int returned \<times> algorithm" where
  "example_evaluate self = Inr (Returned_dict [(''accuracy'', 9), (''round'', 2)], self)"





section \<open>Facts about dictionaries\<close>

lemma map_of_setitem: "map_of (setitem k v d) = (map_of d)(k \<mapsto> v)"
  by (simp add: setitem_def update_conv')

lemma map_of_dict_update: "map_of (dict_update d e) = map_of d ++ map_of (rev e)"
proof (induction e arbitrary: d)
  case Nil
  then show ?case by simp
next
  case (Cons a e)
  obtain k v where a: "a = (k, v)" by (cases a)
  show ?case
    by (simp add: a Cons.IH map_of_setitem map_add_def fun_eq_iff split: option.splits)
qed

section \<open>The benign updates of a round\<close>

lemma collect_updates_eq:
  assumes "list_all (names_client cm) rs"
  shows "collect_updates s cm rs acc = Inr (acc @ List.map_filter recorded (filter (is_benign s cm) rs))"
  using assms
proof (induction rs arbitrary: acc)
  case Nil
  then show ?case by simp
next
  case (Cons r rs)
  from Cons.prems obtain m i c where
    m: "cm = Some m" and i: "id_entry r = Bound i" and c: "map_of m i = Some c"
    by (auto simp: names_client_def split: option.splits entry.splits)
  have rest: "list_all (names_client cm) rs"
    using Cons.prems by simp
  show ?case
  proof (cases "is_malicious (s c)")
    case True
    then have nb: "\<not> is_benign s cm r" by (simp add: is_benign_def owner_def m i c)
    show ?thesis
      using True nb Cons.IH [OF rest]
      by (simp add: m i c entry_getitem_def get_client_by_id_def Let_def split: option.splits)
  next
    case False
    then have b: "is_benign s cm r" by (simp add: is_benign_def owner_def m i c)
    show ?thesis
    proof (cases "entry_get (update_entry r)")
      case None
      then have "recorded r = None"
        by (auto simp: recorded_def entry_get_def split: entry.splits option.splits)
      then show ?thesis
        using False b None Cons.IH [OF rest]
        by (simp add: m i c entry_getitem_def get_client_by_id_def Let_def)
    next
      case (Some g)
      then have "recorded r = Some g"
        by (auto simp: recorded_def entry_get_def split: entry.splits option.splits)
      then show ?thesis
        using False b Some Cons.IH [OF rest]
        by (simp add: m i c entry_getitem_def get_client_by_id_def Let_def)
    qed
  qed
qed

lemma get_benign_updates_resolvable:
  assumes "resolvable a"
  shows "get_benign_updates s a =
           (if benign_updates s a = [] then Inl (ValueError no_benign_updates)
            else vstack (benign_updates s a))"
  using assms
  by (simp add: get_benign_updates_def resolvable_def collect_updates_eq
        benign_updates_def benign_results_def)

lemma vstack_cases: "vstack rows = Inr t \<Longrightarrow> t = rows"
  by (simp add: vstack_def split: if_splits)

lemma vstack_not_ValueError: "vstack rows \<noteq> Inl (ValueError m)"
  by (simp add: vstack_def)

lemma map_filter_all_Some:
  "list_all (\<lambda>x. f x \<noteq> None) xs \<Longrightarrow> map Some (List.map_filter f xs) = map f xs"
  by (induction xs) auto

lemma length_map_filter: "length (List.map_filter f xs) = length (filter (\<lambda>x. f x \<noteq> None) xs)"
  by (induction xs) (auto split: option.splits)

lemma map_filter_skip: "f x = None \<Longrightarrow> List.map_filter f (xs @ x # ys) = List.map_filter f (xs @ ys)"
  by (induction xs) (auto split: option.splits)

lemma benign_count:
  "length (local_results a) - length (malicious_results s a) = length (benign_results s a)"
proof -
  have "length (benign_results s a) + length (malicious_results s a) = length (local_results a)"
    unfolding benign_results_def malicious_results_def by (rule sum_length_filter_compl)
  then show ?thesis by simp
qed

text \<open>
  Claim C1, as amended. Take a round in which every result names a client the client
  manager knows, with N results, M of them of malicious clients. When every result of a
  benign client carries a pseudo-gradient that is not None, and these tensors have one
  length, \<open>get_benign_updates\<close> returns a stack of exactly N - M rows, which are the
  recorded pseudo-gradients of the benign clients in the order of \<open>local_results\<close>; and
  when N - M = 0 it raises the ValueError.
\<close>

theorem get_benign_updates_rows:
  assumes "resolvable a"
    and "list_all (\<lambda>res. recorded res \<noteq> None) (benign_results s a)"
    and "\<forall>g \<in> set (benign_updates s a). \<forall>g' \<in> set (benign_updates s a). length g = length g'"
  shows "(length (local_results a) - length (malicious_results s a) = 0 \<longrightarrow>
            get_benign_updates s a = Inl (ValueError no_benign_updates))
       \<and> (0 < length (local_results a) - length (malicious_results s a) \<longrightarrow>
            (\<exists>t. get_benign_updates s a = Inr t
                 \<and> length t = length (local_results a) - length (malicious_results s a)
                 \<and> map Some t = map recorded (benign_results s a)))"
proof -
  have rows: "map Some (benign_updates s a) = map recorded (benign_results s a)"
    unfolding benign_updates_def using assms(2) by (rule map_filter_all_Some)
  have "length (map Some (benign_updates s a)) = length (map recorded (benign_results s a))"
    by (simp only: rows)
  then have len: "length (benign_updates s a) = length (benign_results s a)"
    by (simp only: length_map)
  have count: "length (local_results a) - length (malicious_results s a) =
      length (benign_updates s a)"
    by (simp only: len benign_count)
  have gbu: "get_benign_updates s a =
      (if benign_updates s a = [] then Inl (ValueError no_benign_updates)
       else vstack (benign_updates s a))"
    using assms(1) by (rule get_benign_updates_resolvable)
  show ?thesis
  proof (intro conjI impI)
    assume "length (local_results a) - length (malicious_results s a) = 0"
    then have "length (benign_updates s a) = 0" by (simp only: count)
    then have "benign_updates s a = []" by simp
    then show "get_benign_updates s a = Inl (ValueError no_benign_updates)"
      unfolding gbu by simp
  next
    assume "0 < length (local_results a) - length (malicious_results s a)"
    then have "0 < length (benign_updates s a)" by (simp only: count)
    then have ne: "benign_updates s a \<noteq> []" by simp
    then have "hd (benign_updates s a) \<in> set (benign_updates s a)" by (rule hd_in_set)
    with assms(3) ne have c: "\<not> (benign_updates s a = [] \<or>
        (\<exists>row \<in> set (benign_updates s a). length row \<noteq> length (hd (benign_updates s a))))"
      by blast
    have "vstack (benign_updates s a) = Inr (benign_updates s a)"
      unfolding vstack_def by (simp only: c if_False)
    then have g: "get_benign_updates s a = Inr (benign_updates s a)"
      unfolding gbu using ne by simp
    show "\<exists>t. get_benign_updates s a = Inr t
                 \<and> length t = length (local_results a) - length (malicious_results s a)
                 \<and> map Some t = map recorded (benign_results s a)"
    proof (intro exI conjI)
      show "get_benign_updates s a = Inr (benign_updates s a)" by (fact g)
      show "length (benign_updates s a) = length (local_results a) - length (malicious_results s a)"
        by (simp only: count)
      show "map Some (benign_updates s a) = map recorded (benign_results s a)" by (fact rows)
    qed
  qed
qed

theorem get_benign_updates_rows_witness:
  "resolvable full_round
   \<and> list_all (\<lambda>res. recorded res \<noteq> None) (benign_results example_store full_round)
   \<and> length (local_results full_round) - length (malicious_results example_store full_round) = 2
   \<and> get_benign_updates example_store full_round = Inr [[1, 2], [3, 4]]"
proof -
  have r: "resolvable full_round"
    by (simp add: resolvable_def full_round_def round_of_def names_client_def example_manager_def)
  have b: "benign_results example_store full_round =
      [\<lparr>id_entry = Bound ''a'', update_entry = Bound (Some [1, 2])\<rparr>,
       \<lparr>id_entry = Bound ''b'', update_entry = Bound (Some [3, 4])\<rparr>]"
    by (simp add: benign_results_def full_round_def round_of_def example_manager_def example_store_def
      is_benign_def owner_def)
  have p: "list_all (\<lambda>res. recorded res \<noteq> None) (benign_results example_store full_round)"
    unfolding b by (simp add: recorded_def)
  have u: "benign_updates example_store full_round = [[1, 2], [3, 4]]"
    unfolding benign_updates_def b by (simp add: recorded_def)
  have l: "\<forall>g \<in> set (benign_updates example_store full_round).
           \<forall>g' \<in> set (benign_updates example_store full_round). length g = length g'"
    unfolding u by simp
  have n: "length (local_results full_round) - length (malicious_results example_store full_round) = 2"
    by (simp add: benign_count b)
  from get_benign_updates_rows [OF r p l] n obtain t where
    "get_benign_updates example_store full_round = Inr t"
    "map Some t = map recorded (benign_results example_store full_round)"
    by auto
  then have "get_benign_updates example_store full_round = Inr [[1, 2], [3, 4]]"
    unfolding b by (auto simp: recorded_def)
  with r p n show ?thesis by simp
qed

text \<open>
  The claim without the amendment fails: in \<open>silent_round\<close> the only result belongs to a
  benign client (N - M = 1) whose pseudo-gradient is None, and the call raises.
\<close>

theorem get_benign_updates_raises_with_benign_client:
  "length (local_results silent_round) - length (malicious_results example_store silent_round) = 1
   \<and> get_benign_updates example_store silent_round = Inl (ValueError no_benign_updates)"
  by (simp add: get_benign_updates_def silent_round_def round_of_def example_manager_def example_store_def
      entry_get_def entry_getitem_def get_client_by_id_def malicious_results_def is_benign_def owner_def)

text \<open>
  Claim C9. In a round in which every result names a known client, \<open>get_benign_updates\<close>
  raises its ValueError exactly when no benign client recorded a pseudo-gradient other
  than None; what it returns is the list of those pseudo-gradients, one row for each
  benign result that has one, so never more rows than benign results; and a result
  whose pseudo-gradient is absent or None is skipped, whoever owns it: removing it from
  the round changes nothing.
\<close>

theorem get_benign_updates_skips_missing:
  assumes "resolvable a"
  shows "(get_benign_updates s a = Inl (ValueError no_benign_updates) \<longleftrightarrow> benign_updates s a = [])
    \<and> (\<forall>t. get_benign_updates s a = Inr t \<longrightarrow>
          t = benign_updates s a
          \<and> length t = length (filter (\<lambda>res. recorded res \<noteq> None) (benign_results s a))
          \<and> length t \<le> length (benign_results s a))
    \<and> (\<forall>pre res post. local_results a = pre @ res # post \<and> recorded res = None \<longrightarrow>
          get_benign_updates s a = get_benign_updates s (a\<lparr>local_results := pre @ post\<rparr>))"
proof (intro conjI allI impI)
  show "get_benign_updates s a = Inl (ValueError no_benign_updates) \<longleftrightarrow> benign_updates s a = []"
    using assms by (simp add: get_benign_updates_resolvable vstack_not_ValueError)
next
  fix t assume t: "get_benign_updates s a = Inr t"
  then show eq: "t = benign_updates s a"
    using assms by (auto simp: get_benign_updates_resolvable dest: vstack_cases split: if_splits)
  then show len: "length t = length (filter (\<lambda>res. recorded res \<noteq> None) (benign_results s a))"
    by (simp add: benign_updates_def length_map_filter)
  show "length t \<le> length (benign_results s a)"
    unfolding len by (rule length_filter_le)
next
  fix pre res post
  assume h: "local_results a = pre @ res # post \<and> recorded res = None"
  let ?b = "a\<lparr>local_results := pre @ post\<rparr>"
  have rb: "resolvable ?b" using assms h by (simp add: resolvable_def)
  have "benign_updates s ?b = benign_updates s a"
    using h by (simp add: benign_updates_def benign_results_def map_filter_skip List.map_filter_def)
  then show "get_benign_updates s a = get_benign_updates s ?b"
    using assms rb by (simp add: get_benign_updates_resolvable)
qed

theorem get_benign_updates_skips_missing_witness:
  "resolvable partial_round
   \<and> get_benign_updates example_store partial_round = Inr [[1, 2]]
   \<and> benign_updates example_store partial_round = [[1, 2]]
   \<and> length (benign_results example_store partial_round) = 2
   \<and> resolvable silent_round
   \<and> benign_updates example_store silent_round = []
   \<and> length (benign_results example_store silent_round) = 1
   \<and> get_benign_updates example_store silent_round = Inl (ValueError no_benign_updates)"
proof -
  have r': "resolvable silent_round"
    by (simp add: resolvable_def silent_round_def round_of_def names_client_def example_manager_def)
  have n': "length (benign_results example_store silent_round) = 1"
    by (simp add: benign_results_def silent_round_def round_of_def example_manager_def
      example_store_def is_benign_def owner_def)
  have u': "benign_updates example_store silent_round = []"
    by (simp add: benign_updates_def benign_results_def silent_round_def round_of_def
      example_manager_def example_store_def is_benign_def owner_def recorded_def)
  from get_benign_updates_skips_missing [OF r', of example_store] u'
  have v': "get_benign_updates example_store silent_round = Inl (ValueError no_benign_updates)"
    by blast
  have r: "resolvable partial_round"
    by (simp add: resolvable_def partial_round_def round_of_def names_client_def example_manager_def)
  have v: "get_benign_updates example_store partial_round = Inr [[1, 2]]"
    by (simp add: get_benign_updates_def partial_round_def round_of_def example_manager_def example_store_def
      entry_get_def entry_getitem_def get_client_by_id_def vstack_def)
  have n: "length (benign_results example_store partial_round) = 2"
    by (simp add: benign_results_def partial_round_def round_of_def example_manager_def example_store_def
      is_benign_def owner_def)
  from get_benign_updates_skips_missing [OF r, of example_store] v have "[[1, 2]] = benign_updates example_store partial_round"
    by blast
  with r v n r' n' u' v' show ?thesis by simp
qed

section \<open>AdversaryConfig.update_from_dict\<close>


section \<open>Adversary.on_algorithm_start\<close>

lemma to_malicious_each_other: "r \<notin> set cs \<Longrightarrow> to_malicious_each cs s r = s r"
  by (induction cs arbitrary: s) auto

lemma to_malicious_idem: "to_malicious b (to_malicious b c) = to_malicious b c"
  by (simp add: to_malicious_def)

lemma to_malicious_each_owned:
  "r \<in> set cs \<Longrightarrow> to_malicious_each cs s r = to_malicious False (s r)"
proof (induction cs arbitrary: s)
  case Nil
  then show ?case by simp
next
  case (Cons c cs)
  show ?case
  proof (cases "r \<in> set cs")
    case True
    have "to_malicious_each cs (s(c := to_malicious False (s c))) r =
          to_malicious False ((s(c := to_malicious False (s c))) r)"
      using True by (rule Cons.IH)
    also have "\<dots> = to_malicious False (s r)"
      by (simp add: to_malicious_idem)
    finally show ?thesis by simp
  next
    case False
    with Cons.prems have "r = c" by simp
    with False show ?thesis by (simp add: to_malicious_each_other)
  qed
qed

text \<open>
  Claim C4. After \<open>on_algorithm_start\<close>, every client in the adversary's list is
  malicious with local training disabled, and every client that is not in the list is
  as it was before.
\<close>

theorem on_algorithm_start_marks_owned_only:
  "(\<forall>r \<in> set (clients self).
      is_malicious (on_algorithm_start self s r) \<and> \<not> local_training (on_algorithm_start self s r))
   \<and> (\<forall>r. r \<notin> set (clients self) \<longrightarrow> on_algorithm_start self s r = s r)"
  by (simp add: on_algorithm_start_def to_malicious_each_other to_malicious_each_owned to_malicious_def)

theorem on_algorithm_start_marks_owned_only_witness:
  "is_malicious (on_algorithm_start (Adversary_init [0, 2] PNone) example_store 0)
   \<and> \<not> local_training (on_algorithm_start (Adversary_init [0, 2] PNone) example_store 0)
   \<and> on_algorithm_start (Adversary_init [0, 2] PNone) example_store 1 = example_store 1
   \<and> \<not> is_malicious (example_store 1) \<and> \<not> is_malicious (example_store 0)"
proof -
  have m: "(0::nat) \<in> set (clients (Adversary_init [0, 2] PNone))"
    and o: "(1::nat) \<notin> set (clients (Adversary_init [0, 2] PNone))"
    by (simp_all add: Adversary_init_def)
  from on_algorithm_start_marks_owned_only [of "Adversary_init [0, 2] PNone" example_store] m o
  show ?thesis by (auto simp: example_store_def)
qed

section \<open>Freezing a config\<close>








section \<open>Algorithm.step\<close>

lemma due_evaluate_this_iter: "evaluation_due self \<Longrightarrow> evaluate_this_iter self = Inr True"
  by (auto simp: evaluation_due_def evaluate_this_iter_def split: option.splits)

lemma evaluate_this_iter_nonzero:
  "evaluation_interval (config self) \<noteq> Some 0 \<Longrightarrow> evaluate_this_iter self = Inr (evaluation_due self)"
  by (auto simp: evaluation_due_def evaluate_this_iter_def split: option.splits)

text \<open>
  Claim C5, as amended. When the evaluation interval is not 0: if evaluation is not due,
  \<open>step\<close> is \<open>training_step\<close>, result and object unchanged, and \<open>evaluate\<close> is not run; if
  evaluation is due, \<open>step\<close> runs \<open>training_step\<close> and then \<open>evaluate\<close> on the object that
  \<open>training_step\<close> left, and the mapping that \<open>evaluate\<close> returns is merged into the
  training results (a key of both takes the value from the evaluation). An exception of
  either method is the exception of \<open>step\<close>, and None from \<open>evaluate\<close> is a TypeError.
\<close>

theorem step_evaluates_when_due:
  assumes "evaluation_interval (config self) \<noteq> Some 0"
  shows "(\<not> evaluation_due self \<longrightarrow> step ts ev self = ts self)
    \<and> (evaluation_due self \<longrightarrow>
         (\<forall>e. ts self = Inl e \<longrightarrow> step ts ev self = Inl e)
         \<and> (\<forall>results self1. ts self = Inr (results, self1) \<longrightarrow>
              (\<forall>metrics self2. ev self1 = Inr (Returned_dict metrics, self2) \<longrightarrow>
                 step ts ev self = Inr (dict_update results metrics, self2)
                 \<and> map_of (dict_update results metrics) = map_of results ++ map_of (rev metrics))
              \<and> (\<forall>self2. ev self1 = Inr (Returned_None, self2) \<longrightarrow> step ts ev self = Inl TypeError)
              \<and> (\<forall>e. ev self1 = Inl e \<longrightarrow> step ts ev self = Inl e)))"
proof -
  have e: "evaluate_this_iter self = Inr (evaluation_due self)"
    using assms by (rule evaluate_this_iter_nonzero)
  show ?thesis
    by (auto simp: step_def e map_of_dict_update split: sum.splits prod.splits)
qed

theorem step_evaluates_when_due_witness:
  "evaluation_interval (config (evaluating_algorithm 1 (Some 2))) \<noteq> Some 0
   \<and> evaluation_due (evaluating_algorithm 1 (Some 2))
   \<and> step example_training_step example_evaluate (evaluating_algorithm 1 (Some 2)) =
       Inr ([(''loss'', 7), (''round'', 2), (''accuracy'', 9)], evaluating_algorithm 1 (Some 2))
   \<and> \<not> evaluation_due (evaluating_algorithm 0 (Some 2))
   \<and> step example_training_step example_evaluate (evaluating_algorithm 0 (Some 2)) =
       Inr ([(''loss'', 7), (''round'', 1)], evaluating_algorithm 0 (Some 2))"
proof -
  have h1: "evaluation_interval (config (evaluating_algorithm 1 (Some 2))) \<noteq> Some 0"
    and h0: "evaluation_interval (config (evaluating_algorithm 0 (Some 2))) \<noteq> Some 0"
    by (simp_all add: evaluating_algorithm_def)
  have d1: "evaluation_due (evaluating_algorithm 1 (Some 2))"
    and d0: "\<not> evaluation_due (evaluating_algorithm 0 (Some 2))"
    by (simp_all add: evaluation_due_def evaluating_algorithm_def)
  have "step example_training_step example_evaluate (evaluating_algorithm 1 (Some 2)) =
      Inr (dict_update [(''loss'', 7), (''round'', 1)] [(''accuracy'', 9), (''round'', 2)],
           evaluating_algorithm 1 (Some 2))"
    using step_evaluates_when_due [OF h1, of example_training_step example_evaluate] d1
    by (simp add: example_training_step_def example_evaluate_def)
  moreover have "step example_training_step example_evaluate (evaluating_algorithm 0 (Some 2)) =
      example_training_step (evaluating_algorithm 0 (Some 2))"
    using step_evaluates_when_due [OF h0, of example_training_step example_evaluate] d0 by simp
  ultimately show ?thesis
    using h1 d1 d0 by (simp add: example_training_step_def setitem_def)
qed

text \<open>
  The claim without the amendment fails at the interval 0: evaluation is not due, the
  training step returns its results, and \<open>step\<close> raises ZeroDivisionError.
\<close>

theorem step_zero_interval_raises:
  "\<not> evaluation_due (evaluating_algorithm 0 (Some 0))
   \<and> example_training_step (evaluating_algorithm 0 (Some 0)) =
       Inr ([(''loss'', 7), (''round'', 1)], evaluating_algorithm 0 (Some 0))
   \<and> step example_training_step example_evaluate (evaluating_algorithm 0 (Some 0)) =
       Inl ZeroDivisionError"
  by (simp add: evaluation_due_def evaluating_algorithm_def example_training_step_def
      step_def evaluate_this_iter_def)

text \<open>
  Claim C10. When evaluation is due, \<open>step\<close> of the base class raises TypeError, and so
  does \<open>step\<close> with any \<open>training_step\<close> that returns and the \<open>evaluate\<close> of the base class;
  whenever \<open>step\<close> returns on such an iteration, \<open>evaluate\<close> returned a mapping, which
  was merged into the results.
\<close>

theorem base_step_raises_when_due:
  assumes "evaluation_due self"
  shows "step training_step evaluate self = Inl TypeError
    \<and> (\<forall>ts results self1. ts self = Inr (results, self1) \<longrightarrow>
          step ts evaluate self = Inl TypeError)
    \<and> (\<forall>ts ev results self2. step ts ev self = Inr (results, self2) \<longrightarrow>
          (\<exists>r0 self1 metrics. ts self = Inr (r0, self1)
             \<and> ev self1 = Inr (Returned_dict metrics, self2)
             \<and> results = dict_update r0 metrics))"
proof -
  have e: "evaluate_this_iter self = Inr True"
    using assms by (rule due_evaluate_this_iter)
  show ?thesis
    by (auto simp: step_def e training_step_def evaluate_def
        split: sum.splits prod.splits returned.splits)
qed

theorem base_step_raises_when_due_witness:
  "evaluation_due (evaluating_algorithm 1 (Some 2))
   \<and> step training_step evaluate (evaluating_algorithm 1 (Some 2)) =
       (Inl TypeError :: error + (string \<times> int) list \<times> algorithm)
   \<and> step example_training_step evaluate (evaluating_algorithm 1 (Some 2)) = Inl TypeError"
proof -
  have d: "evaluation_due (evaluating_algorithm 1 (Some 2))"
    by (simp add: evaluation_due_def evaluating_algorithm_def)
  have t: "example_training_step (evaluating_algorithm 1 (Some 2)) =
      Inr ([(''loss'', 7), (''round'', 1)], evaluating_algorithm 1 (Some 2))"
    by (simp add: example_training_step_def)
  from base_step_raises_when_due [OF d] t d show ?thesis by blast
qed

section \<open>Algorithm.setup\<close>



section \<open>Algorithm.save_checkpoint\<close>

text \<open>
  Claim C7. When the state file can be opened for writing, \<open>save_checkpoint\<close> returns
  the directory it was given; afterwards the file \<open>algorithm_state.pkl\<close> in that
  directory holds the serialized state, a mapping that binds \<open>"config"\<close> to the config of
  the algorithm; and no other file has changed.
\<close>

theorem save_checkpoint_writes_state_file:
  assumes "os_path_join d ''algorithm_state.pkl'' \<notin> set (unwritable fs)"
  shows "\<exists>fs'. save_checkpoint fs self d = Inr (fs', d)
    \<and> map_of (files fs') (os_path_join d ''algorithm_state.pkl'') = Some (Pickled (getstate self))
    \<and> map_of (getstate self) ''config'' = Some (config self)
    \<and> (\<forall>p. p \<noteq> os_path_join d ''algorithm_state.pkl'' \<longrightarrow>
          map_of (files fs') p = map_of (files fs) p)
    \<and> (os_path_join d ''algorithm_state.pkl'' = d @ ''algorithm_state.pkl''
        \<or> os_path_join d ''algorithm_state.pkl'' = d @ ''/algorithm_state.pkl'')"
proof -
  have j: "os_path_join d ''algorithm_state.pkl'' = d @ ''algorithm_state.pkl''
        \<or> os_path_join d ''algorithm_state.pkl'' = d @ ''/algorithm_state.pkl''"
    by (simp add: os_path_join_def)
  show ?thesis
    using assms j
    by (simp add: save_checkpoint_def open_wb_dump_def Let_def map_of_setitem getstate_def)
qed

theorem save_checkpoint_writes_state_file_witness:
  "os_path_join ''ckpt'' ''algorithm_state.pkl'' \<notin> set (unwritable \<lparr>files = [], unwritable = []\<rparr>)
   \<and> save_checkpoint \<lparr>files = [], unwritable = []\<rparr> example_algorithm ''ckpt'' =
       Inr (\<lparr>files = [(''ckpt/algorithm_state.pkl'', Pickled [(''config'', example_config)])],
             unwritable = []\<rparr>, ''ckpt'')"
proof -
  have h: "os_path_join ''ckpt'' ''algorithm_state.pkl'' \<notin> set (unwritable \<lparr>files = [], unwritable = []\<rparr>)"
    by simp
  have p: "os_path_join ''ckpt'' ''algorithm_state.pkl'' = ''ckpt/algorithm_state.pkl''"
    by (simp add: os_path_join_def)
  from save_checkpoint_writes_state_file [OF h, of example_algorithm] obtain fs' where
    "save_checkpoint \<lparr>files = [], unwritable = []\<rparr> example_algorithm ''ckpt'' = Inr (fs', ''ckpt'')"
    by blast
  then show ?thesis
    using h by (auto simp: save_checkpoint_def open_wb_dump_def Let_def p setitem_def getstate_def
        example_algorithm_def)
qed

section \<open>Algorithm.default_resource_request\<close>






end
